theory Spec2Isabelle
  imports Main
begin

section \<open>Python and Qt primitives used by sqlmodel.py\<close>

text \<open>
  The exceptions that the modelled code can raise: Python's IndexError (list subscript),
  ValueError (list.index), AssertionError (assert), the module's own SqlException (raised by
  sql.run_query) and QtValueError (raised by qtutils.ensure_valid).
\<close>

datatype error = IndexError | ValueError | AssertionError | SqlException | QtValueError

definition py_getitem :: "'a list \<Rightarrow> int \<Rightarrow> error + 'a" where
  \<comment> \<open>The subscript \<open>xs[i]\<close>: the positions \<open>-len(xs)\<close> to \<open>-1\<close> are read from the end of
      the list, and a position outside \<open>-len(xs)\<close> to \<open>len(xs) - 1\<close> raises IndexError.\<close>
  "py_getitem xs i =
     (if i < - int (length xs) \<or> int (length xs) \<le> i then Inl IndexError
      else if i < 0 then Inr (xs ! nat (int (length xs) + i))
      else Inr (xs ! nat i))"

fun py_index :: "'a list \<Rightarrow> 'a \<Rightarrow> error + int" where
  \<comment> \<open>\<open>xs.index(x)\<close>: position of the first equal element, ValueError when there is none.\<close>
  "py_index [] x = Inl ValueError"
| "py_index (y # ys) x =
     (if y = x then Inr 0
      else case py_index ys x of Inl e \<Rightarrow> Inl e | Inr i \<Rightarrow> Inr (i + 1))"

definition py_enumerate :: "'a list \<Rightarrow> (int \<times> 'a) list" where
  "py_enumerate xs = zip (map int [0..<length xs]) xs"

text \<open>
  A \<open>char\<close> is a byte and a Python string is modelled by its UTF-8 bytes. The characters
  that \<open>set_pattern\<close> searches for (percent sign, underscore, space) are ASCII, and an ASCII
  byte never occurs inside the encoding of another character, so replacing on bytes and
  replacing on code points give the same string.
\<close>

definition backslash :: char where
  "backslash = CHR 0x5C"

definition quote :: char where
  "quote = CHR 0x27"

definition tab :: char where
  "tab = CHR 0x09"

primrec replace_char :: "char \<Rightarrow> string \<Rightarrow> string \<Rightarrow> string" where
  \<comment> \<open>\<open>s.replace(old, new)\<close> for a one-character \<open>old\<close>: every occurrence, left to right.\<close>
  "replace_char old new [] = []"
| "replace_char old new (c # cs) =
     (if c = old then new @ replace_char old new cs else c # replace_char old new cs)"

function sub_spaces :: "string \<Rightarrow> string \<Rightarrow> string" where
  \<comment> \<open>\<open>re.sub(r' +', repl, s)\<close>: scanning from the left, a space starts a match, the greedy
      \<open>+\<close> takes every space that follows, and the match is replaced by \<open>repl\<close>.\<close>
  "sub_spaces repl [] = []"
| "sub_spaces repl (c # cs) =
     (if c = CHR '' '' then repl @ sub_spaces repl (dropWhile (\<lambda>x. x = CHR '' '') cs)
      else c # sub_spaces repl cs)"
  by pat_completeness auto
termination
  by (relation "measure (\<lambda>(repl, s). length s)")
     (auto simp: less_Suc_eq_le length_dropWhile_le)

fun str_nat :: "nat \<Rightarrow> string" where
  "str_nat n =
     (if n < 10 then [''0123456789'' ! n]
      else str_nat (n div 10) @ [''0123456789'' ! (n mod 10)])"

definition str_int :: "int \<Rightarrow> string" where
  \<comment> \<open>\<open>'{}'.format(i)\<close> for an int.\<close>
  "str_int i = (if i < 0 then CHR ''-'' # str_nat (nat (- i)) else str_nat (nat i))"

fun join :: "string \<Rightarrow> string list \<Rightarrow> string" where
  \<comment> \<open>\<open>sep.join(xs)\<close>\<close>
  "join sep [] = []"
| "join sep [x] = x"
| "join sep (x # y # ys) = x @ sep @ join sep (y # ys)"

definition truthy_str :: "string option \<Rightarrow> bool" where
  \<comment> \<open>\<open>if s:\<close> for a value that is None or a str.\<close>
  "truthy_str s = (case s of None \<Rightarrow> False | Some t \<Rightarrow> t \<noteq> [])"

definition truthy_int :: "int option \<Rightarrow> bool" where
  \<comment> \<open>\<open>if n:\<close> for a value that is None or an int.\<close>
  "truthy_int n = (case n of None \<Rightarrow> False | Some k \<Rightarrow> k \<noteq> 0)"

datatype SortOrder = AscendingOrder | DescendingOrder

subsection \<open>QModelIndex\<close>

text \<open>
  A QModelIndex holds a row, a column, the internal pointer and the model that made it.
  The internal pointer is None or a reference to a category object; a reference is the
  object's identity (\<open>oid\<close> below). There is one model, so the model pointer is a flag.
  \<open>QModelIndex()\<close> is row -1, column -1, no pointer and no model; \<open>createIndex\<close> sets the
  model; an index is valid when row and column are not negative and the model is set.
  Equality of two indexes is equality of the four parts.
\<close>

record model_index =
  row :: int
  column :: int
  internalPointer :: "nat option"
  has_model :: bool

definition QModelIndex :: model_index where
  "QModelIndex = \<lparr>row = -1, column = -1, internalPointer = None, has_model = False\<rparr>"

definition createIndex :: "int \<Rightarrow> int \<Rightarrow> nat option \<Rightarrow> model_index" where
  "createIndex r c p = \<lparr>row = r, column = c, internalPointer = p, has_model = True\<rparr>"

definition isValid :: "model_index \<Rightarrow> bool" where
  "isValid i = (0 \<le> row i \<and> 0 \<le> column i \<and> has_model i)"

definition ensure_valid :: "model_index \<Rightarrow> error + unit" where
  \<comment> \<open>Modelled from the spec: \<open>qtutils.ensure_valid\<close> is not among the sources. The spec gives
      first_item and last_item no failure on a valid address, and the calls use it as a
      guard: it raises QtValueError unless the object is valid.\<close>
  "ensure_valid i = (if isValid i then Inr () else Inl QtValueError)"

subsection \<open>The SQL layer\<close>

text \<open>
  \<open>sql.run_query\<close> is not among the sources, so the database is a parameter: \<open>exec\<close> answers a
  statement and its bound values with a result, or with None when the statement fails and
  run_query raises SqlException. \<open>executed\<close> records the calls in the order they are made.
  A result has the field names of its record and the rows fetched.
\<close>

record sql_query =
  record_fields :: "string list"
  result_rows :: "string list list"

record sql =
  exec :: "string \<Rightarrow> string list \<Rightarrow> sql_query option"
  executed :: "(string \<times> string list) list"

definition run_query :: "sql \<Rightarrow> string \<Rightarrow> string list \<Rightarrow> (error + sql_query) \<times> sql" where
  "run_query db querystr vals =
     ((case exec db querystr vals of None \<Rightarrow> Inl SqlException | Some q \<Rightarrow> Inr q),
      db\<lparr>executed := executed db @ [(querystr, vals)]\<rparr>)"

definition fieldName :: "sql_query \<Rightarrow> int \<Rightarrow> string" where
  \<comment> \<open>\<open>query.record().fieldName(i)\<close>: the empty string when there is no field \<open>i\<close>.\<close>
  "fieldName q i =
     (if 0 \<le> i \<and> i < int (length (record_fields q)) then record_fields q ! nat i else [])"

definition no_query :: sql_query where
  \<comment> \<open>The query of a QSqlQueryModel before the first setQuery.\<close>
  "no_query = \<lparr>record_fields = [], result_rows = []\<rparr>"

section \<open>_SqlCompletionCategory\<close>

text \<open>
  A category object: its identity, the attributes \<open>tablename\<close>, \<open>_fields\<close> and \<open>_querystr\<close>,
  and the query last given to setQuery.
\<close>

record category =
  oid :: nat
  tablename :: string
  cat_fields :: "string list"
  querystr :: string
  query :: sql_query

definition cat_rowCount :: "category \<Rightarrow> int" where
  \<comment> \<open>QSqlQueryModel.rowCount: the rows of the current query.\<close>
  "cat_rowCount c = int (length (result_rows (query c)))"

definition cat_set_pattern :: "category \<Rightarrow> string \<Rightarrow> sql \<Rightarrow> (error + category) \<times> sql" where
  "cat_set_pattern c pat db =
     (case run_query db (querystr c) (map (\<lambda>_. pat) (cat_fields c)) of
        (Inl e, db') \<Rightarrow> (Inl e, db')
      | (Inr q, db') \<Rightarrow> (Inr (c\<lparr>query := q\<rparr>), db'))"

definition build_querystr ::
  "string \<Rightarrow> string list \<Rightarrow> string \<Rightarrow> string option \<Rightarrow> string option \<Rightarrow> SortOrder option
     \<Rightarrow> int option \<Rightarrow> error + string" where
  "build_querystr name flds select whr sort_by sort_order limit =
     (let q1 = ''select '' @ select @ '' from '' @ name @ '' where ('';
          q2 = q1 @ join '' or ''
                 (map (\<lambda>f. f @ '' like ? escape '' @ [quote, backslash, quote]) flds);
          q3 = q2 @ '')'';
          q4 = (if truthy_str whr then q3 @ '' and '' @ the whr else q3)
      in if truthy_str sort_by then
           (if sort_order = None then Inl AssertionError
            else
              let sortstr = (if sort_order = Some AscendingOrder then ''asc'' else ''desc'');
                  q5 = q4 @ '' order by '' @ the sort_by @ '' '' @ sortstr
              in Inr (if truthy_int limit then q5 @ '' limit '' @ str_int (the limit) else q5))
         else Inr (if truthy_int limit then q4 @ '' limit '' @ str_int (the limit) else q4))"

definition cat_init ::
  "nat \<Rightarrow> string \<Rightarrow> string option \<Rightarrow> SortOrder option \<Rightarrow> int option \<Rightarrow> string
     \<Rightarrow> string option \<Rightarrow> int list \<Rightarrow> sql \<Rightarrow> (error + category) \<times> sql" where
  \<comment> \<open>\<open>_SqlCompletionCategory.__init__\<close>; \<open>new\<close> is the identity of the object being made.\<close>
  "cat_init new name sort_by sort_order limit select whr columns db =
     (case run_query db (''select * from '' @ name @ '' limit 1'') [] of
        (Inl e, db1) \<Rightarrow> (Inl e, db1)
      | (Inr probe, db1) \<Rightarrow>
          (let flds = map (fieldName probe) columns
           in case build_querystr name flds select whr sort_by sort_order limit of
                Inl e \<Rightarrow> (Inl e, db1)
              | Inr qs \<Rightarrow>
                  cat_set_pattern
                    \<lparr>oid = new, tablename = name, cat_fields = flds, querystr = qs,
                     query = no_query\<rparr> ''%'' db1))"

section \<open>SqlCompletionModel\<close>

text \<open>
  The attributes \<open>columns_to_filter\<close>, \<open>column_widths\<close>, \<open>_categories\<close> and \<open>pattern\<close>. The
  attributes \<open>srcmodel\<close> and \<open>delete_cur_item\<close> are read by none of the methods below and are
  left out.
\<close>

record model =
  columns_to_filter :: "int list"
  column_widths :: "int \<times> int \<times> int"
  categories :: "category list"
  pattern :: string

definition init :: "(int \<times> int \<times> int) option \<Rightarrow> int list option \<Rightarrow> model" where
  \<comment> \<open>\<open>__init__\<close>; None for an argument left out. \<open>columns_to_filter or [0]\<close> takes \<open>[0]\<close> for
      None and for the empty list.\<close>
  "init widths columns =
     \<lparr>columns_to_filter =
        (case columns of None \<Rightarrow> [0] | Some xs \<Rightarrow> if xs = [] then [0] else xs),
      column_widths = (case widths of None \<Rightarrow> (30, 70, 0) | Some w \<Rightarrow> w),
      categories = [],
      pattern = []\<rparr>"

definition cat_from_idx :: "model \<Rightarrow> model_index \<Rightarrow> error + category option" where
  \<comment> \<open>\<open>not index.internalPointer()\<close>: None is false, a category object is true.\<close>
  "cat_from_idx m idx =
     (if isValid idx \<and> internalPointer idx = None then
        (case py_getitem (categories m) (row idx) of
           Inl e \<Rightarrow> Inl e
         | Inr c \<Rightarrow> Inr (Some c))
      else Inr None)"

definition fresh_oid :: "category list \<Rightarrow> nat" where
  \<comment> \<open>The identity of a newly made object differs from that of every object alive.\<close>
  "fresh_oid cs = Suc (fold max (map oid cs) 0)"

definition new_category ::
  "model \<Rightarrow> string \<Rightarrow> string \<Rightarrow> string option \<Rightarrow> string option \<Rightarrow> SortOrder option
     \<Rightarrow> int option \<Rightarrow> sql \<Rightarrow> error option \<times> model \<times> sql" where
  "new_category m name select whr sort_by sort_order limit db =
     (case cat_init (fresh_oid (categories m)) name sort_by sort_order limit select whr
             (columns_to_filter m) db of
        (Inl e, db') \<Rightarrow> (Some e, m, db')
      | (Inr cat, db') \<Rightarrow> (None, m\<lparr>categories := categories m @ [cat]\<rparr>, db'))"

definition rowCount :: "model \<Rightarrow> model_index \<Rightarrow> error + int" where
  "rowCount m parent_idx =
     (if \<not> isValid parent_idx then Inr (int (length (categories m)))
      else case cat_from_idx m parent_idx of
             Inl e \<Rightarrow> Inl e
           | Inr None \<Rightarrow> Inr 0
           | Inr (Some cat) \<Rightarrow>
               if column parent_idx \<noteq> 0 then Inr 0 else Inr (cat_rowCount cat))"

definition columnCount :: "model \<Rightarrow> model_index \<Rightarrow> int" where
  "columnCount m parent_idx = 3"

definition index :: "model \<Rightarrow> int \<Rightarrow> int \<Rightarrow> model_index \<Rightarrow> error + model_index" where
  \<comment> \<open>The first test is an \<open>or\<close> chain: rowCount is not called when \<open>r < 0\<close>.\<close>
  "index m r c parent_idx =
     (if r < 0 then Inr QModelIndex
      else case rowCount m parent_idx of
             Inl e \<Rightarrow> Inl e
           | Inr n \<Rightarrow>
               if r \<ge> n \<or> c < 0 \<or> c \<ge> columnCount m parent_idx then Inr QModelIndex
               else if isValid parent_idx then
                 (if column parent_idx \<noteq> 0 then Inr QModelIndex
                  else case py_getitem (categories m) (row parent_idx) of
                         Inl e \<Rightarrow> Inl e
                       | Inr cat \<Rightarrow> Inr (createIndex r c (Some (oid cat))))
               else Inr (createIndex r c None))"

definition parent :: "model \<Rightarrow> model_index \<Rightarrow> error + model_index" where
  \<comment> \<open>\<open>self._categories.index(parent_table)\<close> compares category objects, that is identities.\<close>
  "parent m idx =
     (case internalPointer idx of
        None \<Rightarrow> Inr QModelIndex
      | Some parent_table \<Rightarrow>
          (case py_index (map oid (categories m)) parent_table of
             Inl e \<Rightarrow> Inl e
           | Inr r \<Rightarrow> Inr (createIndex r 0 None)))"

definition count :: "model \<Rightarrow> int" where
  "count m = sum_list (map cat_rowCount (categories m))"

definition compile_pattern :: "string \<Rightarrow> string" where
  \<comment> \<open>The four assignments to \<open>pattern\<close> in \<open>set_pattern\<close>, after the raw one is stored.\<close>
  "compile_pattern raw =
     (let p1 = replace_char CHR ''%'' [backslash, CHR ''%''] raw;
          p2 = replace_char CHR ''_'' [backslash, CHR ''_''] p1;
          p3 = sub_spaces ''%'' p2
      in ''%'' @ p3 @ ''%'')"

fun set_pattern_loop ::
  "string \<Rightarrow> category list \<Rightarrow> sql \<Rightarrow> error option \<times> category list \<times> sql" where
  \<comment> \<open>\<open>for cat in self._categories: cat.set_pattern(pattern)\<close>; an exception ends the loop
      and leaves the categories not yet reached as they were.\<close>
  "set_pattern_loop pat [] db = (None, [], db)"
| "set_pattern_loop pat (c # cs) db =
     (case cat_set_pattern c pat db of
        (Inl e, db') \<Rightarrow> (Some e, c # cs, db')
      | (Inr c', db') \<Rightarrow>
          (case set_pattern_loop pat cs db' of (r, cs', db'') \<Rightarrow> (r, c' # cs', db'')))"

definition set_pattern :: "model \<Rightarrow> string \<Rightarrow> sql \<Rightarrow> error option \<times> model \<times> sql" where
  "set_pattern m raw db =
     (let m1 = m\<lparr>pattern := raw\<rparr>
      in case set_pattern_loop (compile_pattern raw) (categories m1) db of
           (r, cs, db') \<Rightarrow> (r, m1\<lparr>categories := cs\<rparr>, db'))"

fun first_item_loop :: "model \<Rightarrow> (int \<times> category) list \<Rightarrow> error + model_index" where
  "first_item_loop m [] = Inr QModelIndex"
| "first_item_loop m ((r, table) # rest) =
     (if cat_rowCount table > 0 then
        (case index m r 0 QModelIndex of
           Inl e \<Rightarrow> Inl e
         | Inr parent_idx \<Rightarrow>
             (case index m 0 0 parent_idx of
                Inl e \<Rightarrow> Inl e
              | Inr idx \<Rightarrow>
                  (case ensure_valid idx of Inl e \<Rightarrow> Inl e | Inr _ \<Rightarrow> Inr idx)))
      else first_item_loop m rest)"

definition first_item :: "model \<Rightarrow> error + model_index" where
  "first_item m = first_item_loop m (py_enumerate (categories m))"

fun last_item_loop :: "model \<Rightarrow> (int \<times> category) list \<Rightarrow> error + model_index" where
  "last_item_loop m [] = Inr QModelIndex"
| "last_item_loop m ((r, table) # rest) =
     (let childcount = cat_rowCount table
      in if childcount > 0 then
           (case index m r 0 QModelIndex of
              Inl e \<Rightarrow> Inl e
            | Inr parent_idx \<Rightarrow>
                (case index m (childcount - 1) 0 parent_idx of
                   Inl e \<Rightarrow> Inl e
                 | Inr idx \<Rightarrow>
                     (case ensure_valid idx of Inl e \<Rightarrow> Inl e | Inr _ \<Rightarrow> Inr idx)))
         else last_item_loop m rest)"

definition last_item :: "model \<Rightarrow> error + model_index" where
  "last_item m = last_item_loop m (rev (py_enumerate (categories m)))"

section \<open>Definitions used to state the properties\<close>

text \<open>
  The escaping of one character, in the words of the specification: a literal percent sign
  or underscore gets a backslash in front, any other character stays as it is.
\<close>

definition escape_char :: "char \<Rightarrow> string" where
  "escape_char c = (if c = CHR ''%'' \<or> c = CHR ''_'' then [backslash, c] else [c])"

text \<open>
  The compilation as the specification words it, with runs of whitespace (space, tab, line
  feed, vertical tab, form feed, carriage return) in place of runs of spaces. It is compared
  with \<open>compile_pattern\<close>, which is the code.
\<close>

definition is_whitespace :: "char \<Rightarrow> bool" where
  "is_whitespace c = (c \<in> set [CHR '' '', tab, CHR 0x0A, CHR 0x0B, CHR 0x0C, CHR 0x0D])"

function sub_whitespace :: "string \<Rightarrow> string \<Rightarrow> string" where
  "sub_whitespace repl [] = []"
| "sub_whitespace repl (c # cs) =
     (if is_whitespace c then repl @ sub_whitespace repl (dropWhile is_whitespace cs)
      else c # sub_whitespace repl cs)"
  by pat_completeness auto
termination
  by (relation "measure (\<lambda>(repl, s). length s)")
     (auto simp: less_Suc_eq_le length_dropWhile_le)

definition spec_compile :: "string \<Rightarrow> string" where
  "spec_compile raw = ''%'' @ sub_whitespace ''%'' (concat (map escape_char raw)) @ ''%''"

text \<open>
  A model with three categories, used to run the operations on concrete input. The first
  and the third category have the same table, statement and rows and differ only in their
  identity; the second has no rows. In the second model only the middle category has rows.
  The database answers every statement with the same two rows.
\<close>

definition example_query :: sql_query where
  "example_query =
     \<lparr>record_fields = [''url'', ''title''],
      result_rows = [[''a.org'', ''A''], [''b.org'', ''B'']]\<rparr>"

definition example_category :: "nat \<Rightarrow> string \<Rightarrow> sql_query \<Rightarrow> category" where
  "example_category i name q =
     \<lparr>oid = i, tablename = name, cat_fields = [''url''],
      querystr = ''select * from '' @ name @ '' where (url like ? escape '' @
                 [quote, backslash, quote] @ '')'',
      query = q\<rparr>"

definition example_model :: model where
  "example_model =
     \<lparr>columns_to_filter = [0], column_widths = (30, 70, 0),
      categories = [example_category 1 ''history'' example_query,
                    example_category 2 ''bookmarks'' (example_query\<lparr>result_rows := []\<rparr>),
                    example_category 3 ''history'' example_query],
      pattern = []\<rparr>"

definition example_sparse_model :: model where
  "example_sparse_model =
     example_model\<lparr>categories :=
       [example_category 4 ''quickmarks'' (example_query\<lparr>result_rows := []\<rparr>),
        example_category 5 ''history'' example_query,
        example_category 6 ''bookmarks'' (example_query\<lparr>result_rows := []\<rparr>)]\<rparr>"

definition example_db :: sql where
  "example_db = \<lparr>exec = (\<lambda>q vals. Some example_query), executed = []\<rparr>"

section \<open>Pattern compilation\<close>

lemma escape_twice:
  "replace_char CHR ''_'' [backslash, CHR ''_'']
     (replace_char CHR ''%'' [backslash, CHR ''%''] raw) = concat (map escape_char raw)"
  by (induction raw) (simp_all add: escape_char_def backslash_def)

lemma compile_pattern_eq:
  "compile_pattern raw = ''%'' @ sub_spaces ''%'' (concat (map escape_char raw)) @ ''%''"
  by (simp add: compile_pattern_def escape_twice)

lemma dropWhile_append_stop:
  "\<not> P c \<Longrightarrow> dropWhile P (xs @ c # ys) = dropWhile P xs @ c # ys"
  by (induction xs) simp_all

lemma sub_spaces_append_nonspace:
  "c \<noteq> CHR '' '' \<Longrightarrow> sub_spaces r (xs @ c # ys) = sub_spaces r xs @ c # sub_spaces r ys"
proof (induction r xs rule: sub_spaces.induct)
  case (1 repl)
  then show ?case by simp
next
  case (2 repl d ds)
  then show ?case by (simp add: dropWhile_append_stop)
qed

lemma sub_spaces_no_space: "CHR '' '' \<notin> set r \<Longrightarrow> CHR '' '' \<notin> set (sub_spaces r xs)"
  by (induction r xs rule: sub_spaces.induct) auto

lemma dropWhile_replicate_append:
  "ys = [] \<or> \<not> P (hd ys) \<Longrightarrow> P x \<Longrightarrow> dropWhile P (replicate n x @ ys) = ys"
  by (induction n) (auto simp: dropWhile_eq_self_iff)

lemma sub_spaces_run:
  assumes "0 < n" "xs = [] \<or> last xs \<noteq> CHR '' ''" "ys = [] \<or> hd ys \<noteq> CHR '' ''"
  shows "sub_spaces r (xs @ replicate n CHR '' '' @ ys) = sub_spaces r xs @ r @ sub_spaces r ys"
  using assms
proof (induction r xs rule: sub_spaces.induct)
  case (1 repl)
  then obtain k where "n = Suc k" by (cases n) auto
  with 1 show ?case by (simp add: dropWhile_replicate_append)
next
  case (2 repl d ds)
  show ?case
  proof (cases "d = CHR '' ''")
    case True
    let ?P = "\<lambda>x. x = CHR '' ''"
    from True 2 have ne: "ds \<noteq> []" and l: "last ds \<noteq> CHR '' ''"
      by (auto split: if_splits)
    then have ex: "\<exists>x\<in>set ds. \<not> ?P x" using last_in_set by blast
    then obtain x where "x \<in> set ds" "\<not> ?P x" by blast
    then have dw: "dropWhile ?P (ds @ replicate n CHR '' '' @ ys)
                     = dropWhile ?P ds @ replicate n CHR '' '' @ ys"
      by (rule dropWhile_append1)
    have ne': "dropWhile ?P ds \<noteq> []" using ex by (simp add: dropWhile_eq_Nil_conv)
    then have "last (dropWhile ?P ds) = last ds"
      by (metis last_appendR takeWhile_dropWhile_id)
    with l have "dropWhile ?P ds = [] \<or> last (dropWhile ?P ds) \<noteq> CHR '' ''" by simp
    from 2(1) [OF True 2(3) this 2(5)] dw True show ?thesis by simp
  next
    case False
    with 2 have "ds = [] \<or> last ds \<noteq> CHR '' ''" by (auto split: if_splits)
    from 2(2) [OF False 2(3) this 2(5)] False show ?thesis by simp
  qed
qed

lemma escape_Nil_iff: "concat (map escape_char a) = [] \<longleftrightarrow> a = []"
  by (cases a) (auto simp: escape_char_def)

lemma last_escape_char: "last (escape_char c) = c"
  by (simp add: escape_char_def)

lemma last_escape: "a \<noteq> [] \<Longrightarrow> last (concat (map escape_char a)) = last a"
proof (induction a)
  case Nil
  then show ?case by simp
next
  case (Cons x xs)
  show ?case
  proof (cases "xs = []")
    case True
    then show ?thesis by (simp add: last_escape_char)
  next
    case False
    then have "concat (map escape_char xs) \<noteq> []"
      by (simp only: escape_Nil_iff not_False_eq_True)
    with False Cons.IH show ?thesis by simp
  qed
qed

lemma hd_escape_nonspace:
  "b \<noteq> [] \<Longrightarrow> hd b \<noteq> CHR '' '' \<Longrightarrow> hd (concat (map escape_char b)) \<noteq> CHR '' ''"
  by (cases b) (auto simp: escape_char_def backslash_def)

lemma escape_replicate_space:
  "concat (replicate n (escape_char CHR '' '')) = replicate n CHR '' ''"
  by (induction n) (simp_all add: escape_char_def)

lemma filter_dropWhile_spaces:
  "\<not> P CHR '' '' \<Longrightarrow> filter P (dropWhile (\<lambda>x. x = CHR '' '') cs) = filter P cs"
  by (induction cs) auto

lemma filter_sub_spaces:
  "\<not> P CHR '' '' \<Longrightarrow> filter P r = [] \<Longrightarrow> filter P (sub_spaces r xs) = filter P xs"
  by (induction r xs rule: sub_spaces.induct) (auto simp: filter_dropWhile_spaces)

lemma count_backslash_escape:
  "length (filter (\<lambda>c. c = backslash) (concat (map escape_char raw)))
     = length (filter (\<lambda>c. c = backslash) raw)
       + length (filter (\<lambda>c. c = CHR ''%'' \<or> c = CHR ''_'') raw)"
  by (induction raw) (auto simp: escape_char_def backslash_def)

text \<open>
  Claim C3. The compilation in \<open>set_pattern\<close> puts a backslash in front of every percent
  sign and underscore of the raw input and wraps the result in two percent signs. The empty
  input gives \<open>%%\<close>, \<open>foo bar\<close> gives \<open>%foo%bar%\<close>, and \<open>50% off\<close> gives \<open>%50\%%off%\<close>.
  The compilation is a total function of the input string: there is no input on which it
  fails.
\<close>

theorem compile_pattern_escapes_and_wraps:
  "compile_pattern raw = ''%'' @ sub_spaces ''%'' (concat (map escape_char raw)) @ ''%''
   \<and> compile_pattern [] = ''%%''
   \<and> compile_pattern ''foo bar'' = ''%foo%bar%''
   \<and> compile_pattern ''50% off'' = ''%50'' @ [backslash] @ ''%%off%''"
  by (simp add: compile_pattern_eq) (simp add: escape_char_def backslash_def)

theorem compile_pattern_escapes_and_wraps_witness:
  "compile_pattern ''a_b %'' = ''%a'' @ [backslash] @ ''_b%'' @ [backslash] @ ''%%''"
  using compile_pattern_escapes_and_wraps [of "''a_b %''"]
  by (simp add: escape_char_def backslash_def)

text \<open>
  Claim C4, as stated: every maximal run of whitespace, tabs and newlines included, becomes
  one percent sign. The code's pattern is a run of spaces only: a tab between two letters
  stays in the compiled pattern, where the claim's reading gives a wildcard.
\<close>

theorem compile_pattern_keeps_tab:
  "compile_pattern [CHR ''a'', tab, CHR ''b''] = [CHR ''%'', CHR ''a'', tab, CHR ''b'', CHR ''%'']
   \<and> spec_compile [CHR ''a'', tab, CHR ''b''] = ''%a%b%''"
  by (simp add: compile_pattern_def spec_compile_def escape_char_def tab_def
      is_whitespace_def)

text \<open>
  Claim C4, amended: every maximal run of one or more space characters becomes one percent
  sign, and no space is left in the compiled pattern; any other character that is not a
  percent sign or an underscore, a tab or a newline for instance, is copied unchanged.
  Here \<open>u\<close> and \<open>v\<close> are what the texts before and after compile to, between the wrapping
  percent signs.
\<close>

theorem compile_pattern_space_runs:
  "CHR '' '' \<notin> set (compile_pattern raw)
   \<and> (0 < n \<and> (a = [] \<or> last a \<noteq> CHR '' '') \<and> (b = [] \<or> hd b \<noteq> CHR '' '') \<longrightarrow>
        (\<exists>u v. compile_pattern a = ''%'' @ u @ ''%'' \<and> compile_pattern b = ''%'' @ v @ ''%''
               \<and> compile_pattern (a @ replicate n CHR '' '' @ b)
                   = ''%'' @ u @ ''%'' @ v @ ''%''))
   \<and> (c \<noteq> CHR '' '' \<and> c \<noteq> CHR ''%'' \<and> c \<noteq> CHR ''_'' \<longrightarrow>
        (\<exists>u v. compile_pattern a = ''%'' @ u @ ''%'' \<and> compile_pattern b = ''%'' @ v @ ''%''
               \<and> compile_pattern (a @ c # b) = ''%'' @ u @ c # v @ ''%''))"
proof (intro conjI impI)
  show "CHR '' '' \<notin> set (compile_pattern raw)"
    using sub_spaces_no_space [of "''%''"] by (simp add: compile_pattern_eq)
next
  assume h: "0 < n \<and> (a = [] \<or> last a \<noteq> CHR '' '') \<and> (b = [] \<or> hd b \<noteq> CHR '' '')"
  let ?ea = "concat (map escape_char a)" and ?eb = "concat (map escape_char b)"
  from h have la: "?ea = [] \<or> last ?ea \<noteq> CHR '' ''"
    by (cases "a = []") (simp_all add: last_escape)
  from h have hb: "?eb = [] \<or> hd ?eb \<noteq> CHR '' ''"
    by (cases "b = []") (simp_all add: hd_escape_nonspace)
  from h have "0 < n" by simp
  from sub_spaces_run [OF this la hb, of "''%''"]
  have "compile_pattern (a @ replicate n CHR '' '' @ b)
          = ''%'' @ sub_spaces ''%'' ?ea @ ''%'' @ sub_spaces ''%'' ?eb @ ''%''"
    by (simp add: compile_pattern_eq escape_replicate_space)
  then show "\<exists>u v. compile_pattern a = ''%'' @ u @ ''%''
               \<and> compile_pattern b = ''%'' @ v @ ''%''
               \<and> compile_pattern (a @ replicate n CHR '' '' @ b)
                   = ''%'' @ u @ ''%'' @ v @ ''%''"
    by (simp add: compile_pattern_eq)
next
  assume h: "c \<noteq> CHR '' '' \<and> c \<noteq> CHR ''%'' \<and> c \<noteq> CHR ''_''"
  then have "escape_char c = [c]" by (simp add: escape_char_def)
  with h show "\<exists>u v. compile_pattern a = ''%'' @ u @ ''%''
               \<and> compile_pattern b = ''%'' @ v @ ''%''
               \<and> compile_pattern (a @ c # b) = ''%'' @ u @ c # v @ ''%''"
    by (simp add: compile_pattern_eq sub_spaces_append_nonspace)
qed

theorem compile_pattern_space_runs_witness:
  "CHR '' '' \<notin> set (compile_pattern ''x  y'')
   \<and> compile_pattern ''foo'' = ''%foo%'' \<and> compile_pattern ''bar'' = ''%bar%''
   \<and> compile_pattern (''foo'' @ replicate 3 CHR '' '' @ ''bar'') = ''%foo%bar%''
   \<and> compile_pattern (''foo'' @ tab # ''bar'') = ''%foo'' @ tab # ''bar%''"
proof -
  have h1: "0 < (3::nat) \<and> (''foo'' = [] \<or> last ''foo'' \<noteq> CHR '' '')
              \<and> (''bar'' = [] \<or> hd ''bar'' \<noteq> CHR '' '')"
    by simp
  have h2: "tab \<noteq> CHR '' '' \<and> tab \<noteq> CHR ''%'' \<and> tab \<noteq> CHR ''_''"
    by (simp add: tab_def)
  have foo: "compile_pattern ''foo'' = ''%foo%''" and bar: "compile_pattern ''bar'' = ''%bar%''"
    by (simp_all add: compile_pattern_def)
  from compile_pattern_space_runs [of "''x  y''" 3 "''foo''" "''bar''" tab] h1 h2
  show ?thesis unfolding foo bar by auto
qed

text \<open>
  Claim C9. The compilation never escapes a backslash. A raw input of one backslash
  compiles to percent, backslash, percent, so the backslash stands immediately before the
  closing wildcard. A backslash anywhere in the raw input is copied as it is between what
  the texts before and after it compile to, and the compiled pattern has exactly the
  backslashes of the raw input plus one for each percent sign and underscore.
\<close>

theorem compile_pattern_keeps_backslash:
  "compile_pattern [backslash] = [CHR ''%'', backslash, CHR ''%'']
   \<and> (\<exists>u v. compile_pattern a = ''%'' @ u @ ''%'' \<and> compile_pattern b = ''%'' @ v @ ''%''
             \<and> compile_pattern (a @ backslash # b) = ''%'' @ u @ backslash # v @ ''%'')
   \<and> length (filter (\<lambda>c. c = backslash) (compile_pattern raw))
       = length (filter (\<lambda>c. c = backslash) raw)
         + length (filter (\<lambda>c. c = CHR ''%'' \<or> c = CHR ''_'') raw)"
proof (intro conjI)
  show "compile_pattern [backslash] = [CHR ''%'', backslash, CHR ''%'']"
    by (simp add: compile_pattern_def backslash_def)
next
  have "escape_char backslash = [backslash]" by (simp add: escape_char_def backslash_def)
  moreover have "backslash \<noteq> CHR '' ''" by (simp add: backslash_def)
  ultimately show "\<exists>u v. compile_pattern a = ''%'' @ u @ ''%''
             \<and> compile_pattern b = ''%'' @ v @ ''%''
             \<and> compile_pattern (a @ backslash # b) = ''%'' @ u @ backslash # v @ ''%''"
    by (simp add: compile_pattern_eq sub_spaces_append_nonspace)
next
  have "filter (\<lambda>c. c = backslash) (sub_spaces ''%'' (concat (map escape_char raw)))
          = filter (\<lambda>c. c = backslash) (concat (map escape_char raw))"
    by (rule filter_sub_spaces) (simp_all add: backslash_def)
  moreover have "CHR ''%'' \<noteq> backslash" by (simp add: backslash_def)
  ultimately show "length (filter (\<lambda>c. c = backslash) (compile_pattern raw))
       = length (filter (\<lambda>c. c = backslash) raw)
         + length (filter (\<lambda>c. c = CHR ''%'' \<or> c = CHR ''_'') raw)"
    by (simp add: compile_pattern_eq count_backslash_escape)
qed

theorem compile_pattern_keeps_backslash_witness:
  "compile_pattern (''a'' @ backslash # ''b'') = ''%a'' @ backslash # ''b%''
   \<and> length (filter (\<lambda>c. c = backslash) (compile_pattern (''a_'' @ backslash # ''b''))) = 2"
proof -
  have ab: "compile_pattern ''a'' = ''%a%''" "compile_pattern ''b'' = ''%b%''"
    by (simp_all add: compile_pattern_def)
  from compile_pattern_keeps_backslash [of "''a''" "''b''" "''a_'' @ backslash # ''b''"]
  show ?thesis unfolding ab by (auto simp: backslash_def)
qed

section \<open>Addresses: index, parent, rowCount, columnCount\<close>

lemma py_getitem_in_range:
  "0 \<le> i \<Longrightarrow> i < int (length xs) \<Longrightarrow> py_getitem xs i = Inr (xs ! nat i)"
  by (simp add: py_getitem_def)

lemma py_getitem_out_of_range:
  "int (length xs) \<le> i \<Longrightarrow> py_getitem xs i = Inl IndexError"
  by (simp add: py_getitem_def)

lemma py_index_nth:
  "distinct xs \<Longrightarrow> k < length xs \<Longrightarrow> py_index xs (xs ! k) = Inr (int k)"
proof (induction xs arbitrary: k)
  case Nil
  then show ?case by simp
next
  case (Cons y ys)
  show ?case
  proof (cases k)
    case 0
    then show ?thesis by simp
  next
    case (Suc j)
    with Cons.prems have j: "j < length ys" and "y \<notin> set ys" by auto
    then have "y \<noteq> ys ! j" by auto
    with Cons Suc j show ?thesis by simp
  qed
qed

lemma isValid_createIndex: "isValid (createIndex r c p) \<longleftrightarrow> 0 \<le> r \<and> 0 \<le> c"
  by (simp add: isValid_def createIndex_def)

lemma not_isValid_QModelIndex: "\<not> isValid QModelIndex"
  by (simp add: isValid_def QModelIndex_def)

lemma rowCount_root: "\<not> isValid p \<Longrightarrow> rowCount m p = Inr (int (length (categories m)))"
  by (simp add: rowCount_def)

lemma rowCount_item: "isValid p \<Longrightarrow> internalPointer p \<noteq> None \<Longrightarrow> rowCount m p = Inr 0"
  by (auto simp: rowCount_def cat_from_idx_def)

lemma rowCount_category:
  "isValid p \<Longrightarrow> internalPointer p = None \<Longrightarrow> row p < int (length (categories m)) \<Longrightarrow>
   rowCount m p = Inr (if column p \<noteq> 0 then 0 else cat_rowCount (categories m ! nat (row p)))"
  by (simp add: rowCount_def cat_from_idx_def py_getitem_in_range isValid_def)

text \<open>
  A valid index without internal pointer whose row is not the row of a category is not an
  address that the model hands out (categories are appended, never removed). On such an
  index \<open>_cat_from_idx\<close> raises.
\<close>

lemma rowCount_unknown_category:
  "isValid p \<Longrightarrow> internalPointer p = None \<Longrightarrow> int (length (categories m)) \<le> row p \<Longrightarrow>
   rowCount m p = Inl IndexError"
  by (simp add: rowCount_def cat_from_idx_def py_getitem_out_of_range)

lemma rowCount_category_Inr:
  assumes "isValid p" "internalPointer p = None" "rowCount m p = Inr n"
  shows "row p < int (length (categories m))"
proof (rule ccontr)
  assume "\<not> row p < int (length (categories m))"
  then have "int (length (categories m)) \<le> row p" by simp
  from rowCount_unknown_category [OF assms(1,2) this] assms(3) show False by simp
qed

subsection \<open>Identities of the categories stay distinct\<close>

lemma fold_max_ge: "(x::nat) \<in> set xs \<Longrightarrow> x \<le> fold max xs a"
proof (induction xs arbitrary: a)
  case Nil
  then show ?case by simp
next
  case (Cons y ys)
  have mono: "b \<le> fold max ys b" for b :: nat
    by (induction ys arbitrary: b) (auto intro: order_trans [OF max.cobounded2])
  show ?case
  proof (cases "x = y")
    case True
    have "y \<le> max y a" by simp
    also have "\<dots> \<le> fold max ys (max y a)" by (rule mono)
    finally show ?thesis using True by simp
  next
    case False
    with Cons show ?thesis by simp
  qed
qed

lemma fresh_oid_fresh: "fresh_oid cs \<notin> set (map oid cs)"
proof
  assume "fresh_oid cs \<in> set (map oid cs)"
  then have "fresh_oid cs \<le> fold max (map oid cs) 0" by (rule fold_max_ge)
  then show False by (simp add: fresh_oid_def)
qed

lemma cat_set_pattern_oid: "cat_set_pattern c pat db = (Inr c', db') \<Longrightarrow> oid c' = oid c"
  by (auto simp: cat_set_pattern_def split: prod.splits sum.splits)

lemma cat_init_oid:
  "cat_init new name sort_by sort_order limit select whr columns db = (Inr c, db') \<Longrightarrow>
   oid c = new"
  by (auto simp: cat_init_def Let_def split: prod.splits sum.splits
      dest!: cat_set_pattern_oid)

lemma init_distinct: "distinct (map oid (categories (init widths columns)))"
  by (simp add: init_def)

lemma new_category_distinct:
  assumes "distinct (map oid (categories m))"
    and "new_category m name select whr sort_by sort_order limit db = (r, m', db')"
  shows "distinct (map oid (categories m'))"
  using assms fresh_oid_fresh [of "categories m"]
  by (auto simp: new_category_def split: prod.splits sum.splits dest!: cat_init_oid)

lemma set_pattern_loop_oids:
  "set_pattern_loop pat cs db = (r, cs', db') \<Longrightarrow> map oid cs' = map oid cs"
proof (induction cs arbitrary: db r cs' db')
  case Nil
  then show ?case by simp
next
  case (Cons c cs)
  then show ?case
    by (fastforce split: prod.splits sum.splits dest: cat_set_pattern_oid)
qed

lemma set_pattern_distinct:
  assumes "distinct (map oid (categories m))" and "set_pattern m raw db = (r, m', db')"
  shows "distinct (map oid (categories m'))"
  using assms
  by (auto simp: set_pattern_def Let_def split: prod.splits dest!: set_pattern_loop_oids)

subsection \<open>The claims about addresses\<close>

text \<open>
  Claim C1. Let the parent be a category address: a valid top-level address (no internal
  pointer) at column 0. For every row from 0 up to the parent's row count and every column
  from 0 to 2, \<open>index\<close> returns a valid address, and \<open>parent\<close> of that address is the
  parent again. The categories of the model are different objects, as they are in every
  model built by \<open>init\<close>, \<open>new_category\<close> and \<open>set_pattern\<close>.
\<close>

theorem index_parent_roundtrip:
  assumes ids: "distinct (map oid (categories m))"
    and p: "isValid p" "internalPointer p = None" "column p = 0"
    and n: "rowCount m p = Inr n"
    and rc: "0 \<le> r" "r < n" "0 \<le> c" "c < 3"
  shows "\<exists>i. index m r c p = Inr i \<and> isValid i \<and> parent m i = Inr p"
proof -
  let ?k = "nat (row p)"
  from p(1,2) n have lt: "row p < int (length (categories m))"
    by (rule rowCount_category_Inr)
  from p have r0: "0 \<le> row p" by (simp add: isValid_def)
  from lt r0 have k: "?k < length (categories m)" by simp
  let ?i = "createIndex r c (Some (oid (categories m ! ?k)))"
  have idx: "index m r c p = Inr ?i"
    using p n rc lt r0 by (simp add: index_def columnCount_def py_getitem_in_range)
  have "py_index (map oid (categories m)) (oid (categories m ! ?k)) = Inr (int ?k)"
    using py_index_nth [OF ids, of ?k] k by simp
  then have "parent m ?i = Inr (createIndex (row p) 0 None)"
    using r0 by (simp add: parent_def createIndex_def)
  moreover have "createIndex (row p) 0 None = p"
    using p by (simp add: createIndex_def isValid_def)
  ultimately show ?thesis using idx rc by (simp add: isValid_createIndex)
qed

theorem index_parent_roundtrip_witness:
  "index example_model 1 2 (createIndex 2 0 None) = Inr (createIndex 1 2 (Some 3))
   \<and> isValid (createIndex 1 2 (Some 3))
   \<and> parent example_model (createIndex 1 2 (Some 3)) = Inr (createIndex 2 0 None)"
proof -
  have ids: "distinct (map oid (categories example_model))"
    by (simp add: example_model_def example_category_def)
  have p: "isValid (createIndex 2 0 None)" "internalPointer (createIndex 2 0 None) = None"
    "column (createIndex 2 0 None) = 0"
    by (simp_all add: isValid_def createIndex_def)
  have n: "rowCount example_model (createIndex 2 0 None) = Inr 2"
    by (simp add: rowCount_def cat_from_idx_def py_getitem_def isValid_def createIndex_def
        example_model_def example_category_def example_query_def cat_rowCount_def)
  have i: "index example_model 1 2 (createIndex 2 0 None) = Inr (createIndex 1 2 (Some 3))"
    by (simp add: index_def n columnCount_def p py_getitem_def)
       (simp add: createIndex_def example_model_def example_category_def)
  from index_parent_roundtrip [OF ids p n, of 1 2] i show ?thesis by auto
qed

text \<open>
  Claim C2. \<open>rowCount\<close> returns the number of categories for the root (an invalid index),
  the row count of the category at the address's row for a category address at column 0,
  and 0 for an item address and for a category address at another column.
\<close>

theorem rowCount_cases:
  "(\<not> isValid p \<longrightarrow> rowCount m p = Inr (int (length (categories m))))
   \<and> (isValid p \<and> internalPointer p = None \<and> row p < int (length (categories m))
        \<and> column p = 0 \<longrightarrow>
      rowCount m p = Inr (cat_rowCount (categories m ! nat (row p))))
   \<and> (isValid p \<and> internalPointer p \<noteq> None \<longrightarrow> rowCount m p = Inr 0)
   \<and> (isValid p \<and> internalPointer p = None \<and> row p < int (length (categories m))
        \<and> column p \<noteq> 0 \<longrightarrow>
      rowCount m p = Inr 0)"
  by (simp add: rowCount_root rowCount_item rowCount_category)

theorem rowCount_cases_witness:
  "rowCount example_model QModelIndex = Inr 3
   \<and> rowCount example_model (createIndex 0 0 None) = Inr 2
   \<and> rowCount example_model (createIndex 1 0 (Some 3)) = Inr 0
   \<and> rowCount example_model (createIndex 0 1 None) = Inr 0"
  using rowCount_cases [of QModelIndex example_model]
    rowCount_cases [of "createIndex 0 0 None" example_model]
    rowCount_cases [of "createIndex 1 0 (Some 3)" example_model]
    rowCount_cases [of "createIndex 0 1 None" example_model]
  by (simp add: isValid_def QModelIndex_def createIndex_def example_model_def
      example_category_def example_query_def cat_rowCount_def)

text \<open>
  Claim C6. \<open>columnCount\<close> is 3 for every parent. Only column 0 has children: for a
  category address at another column \<open>rowCount\<close> is 0 and \<open>index\<close> returns an invalid
  address, whatever the row and the column asked for.
\<close>

theorem column_zero_only_expansion:
  "columnCount m p = 3
   \<and> (isValid p \<and> internalPointer p = None \<and> row p < int (length (categories m))
        \<and> column p \<noteq> 0 \<longrightarrow>
      rowCount m p = Inr 0 \<and> index m r c p = Inr QModelIndex \<and> \<not> isValid QModelIndex)"
  by (simp add: columnCount_def rowCount_category index_def not_isValid_QModelIndex)

theorem column_zero_only_expansion_witness:
  "columnCount example_model (createIndex 0 1 None) = 3
   \<and> rowCount example_model (createIndex 0 1 None) = Inr 0
   \<and> index example_model 0 0 (createIndex 0 1 None) = Inr QModelIndex
   \<and> \<not> isValid QModelIndex"
  using column_zero_only_expansion [of example_model "createIndex 0 1 None" 0 0]
  by (simp add: isValid_def createIndex_def example_model_def)

lemma py_index_bounds: "py_index xs x = Inr i \<Longrightarrow> 0 \<le> i \<and> i < int (length xs)"
proof (induction xs arbitrary: i)
  case Nil
  then show ?case by simp
next
  case (Cons y ys)
  then show ?case by (fastforce split: if_splits sum.splits)
qed

text \<open>
  The addresses without internal pointer that \<open>index\<close> and \<open>parent\<close> return are addresses of
  categories of the model: their row is below the number of categories.
\<close>

lemma index_issues_known_category:
  assumes "index m r c p = Inr i" "isValid i" "internalPointer i = None"
  shows "row i < int (length (categories m))"
proof (cases "isValid p")
  case True
  with assms show ?thesis
    by (auto simp: index_def createIndex_def not_isValid_QModelIndex
        split: if_splits sum.splits)
next
  case False
  with assms show ?thesis
    by (auto simp: index_def rowCount_root createIndex_def not_isValid_QModelIndex
        split: if_splits)
qed

lemma parent_issues_known_category:
  assumes "parent m i = Inr p" "isValid p"
  shows "internalPointer p = None \<and> row p < int (length (categories m))"
  using assms
  by (auto simp: parent_def createIndex_def not_isValid_QModelIndex
      split: option.splits sum.splits dest!: py_index_bounds)

text \<open>
  Claim C7, as stated: for every parent and every row and column out of range, \<open>index\<close>
  returns an invalid address and raises nothing. A valid index without internal pointer
  whose row is not the row of a category is a parent on which this fails: with three
  categories, row 0 and column 7 (not below \<open>columnCount\<close>) under such a parent, the call
  of \<open>rowCount\<close> in the bounds test reaches \<open>self._categories[index.row()]\<close>, which raises
  IndexError.
\<close>

theorem index_unknown_category_raises:
  "isValid (createIndex 3 0 None)
   \<and> columnCount example_model (createIndex 3 0 None) \<le> 7
   \<and> index example_model 0 7 (createIndex 3 0 None) = Inl IndexError"
  by (simp add: index_def rowCount_def cat_from_idx_def py_getitem_def columnCount_def
      isValid_def createIndex_def example_model_def)

text \<open>
  Claim C7, amended. A negative row gives an invalid address and raises nothing, whatever
  the parent. Let the parent be the root, an item address, or the address of one of the
  model's categories (a valid index without internal pointer whose row is below the number
  of categories); these are the addresses that \<open>index\<close> and \<open>parent\<close> return. When the row
  is negative or not below \<open>rowCount\<close> of the parent, or the column is negative or not below
  \<open>columnCount\<close>, \<open>index\<close> returns an invalid address and raises nothing. In particular a
  row that is not below the number of categories gives an invalid address under the root.
\<close>

theorem index_out_of_range_invalid:
  "(r < 0 \<longrightarrow> index m r c p = Inr QModelIndex)
   \<and> ((\<not> isValid p \<or> internalPointer p \<noteq> None \<or> row p < int (length (categories m)))
        \<and> (r < 0 \<or> (\<exists>n. rowCount m p = Inr n \<and> n \<le> r) \<or> c < 0 \<or> columnCount m p \<le> c)
      \<longrightarrow> index m r c p = Inr QModelIndex)
   \<and> (int (length (categories m)) \<le> r \<longrightarrow> index m r c QModelIndex = Inr QModelIndex)
   \<and> \<not> isValid QModelIndex"
proof (intro conjI impI)
  assume "r < 0"
  then show "index m r c p = Inr QModelIndex" by (simp add: index_def)
next
  assume h: "(\<not> isValid p \<or> internalPointer p \<noteq> None
               \<or> row p < int (length (categories m)))
        \<and> (r < 0 \<or> (\<exists>n. rowCount m p = Inr n \<and> n \<le> r) \<or> c < 0 \<or> columnCount m p \<le> c)"
  then obtain n where n: "rowCount m p = Inr n"
    using rowCount_root [of p m] rowCount_item [of p m] rowCount_category [of p m]
    by blast
  with h show "index m r c p = Inr QModelIndex"
    by (auto simp: index_def)
next
  assume "int (length (categories m)) \<le> r"
  then show "index m r c QModelIndex = Inr QModelIndex"
    by (simp add: index_def rowCount_root not_isValid_QModelIndex)
next
  show "\<not> isValid QModelIndex" by (rule not_isValid_QModelIndex)
qed

theorem index_out_of_range_invalid_witness:
  "index example_model (- 1) 7 (createIndex 3 0 None) = Inr QModelIndex
   \<and> rowCount example_model (createIndex 1 0 None) = Inr 0
   \<and> index example_model 0 0 (createIndex 1 0 None) = Inr QModelIndex
   \<and> index example_model 0 3 (createIndex 0 0 None) = Inr QModelIndex
   \<and> index example_model 3 0 QModelIndex = Inr QModelIndex
   \<and> \<not> isValid QModelIndex"
proof -
  have n: "rowCount example_model (createIndex 1 0 None) = Inr 0"
    by (simp add: rowCount_def cat_from_idx_def py_getitem_def isValid_def createIndex_def
        example_model_def example_category_def example_query_def cat_rowCount_def)
  have known: "row (createIndex 1 0 None) < int (length (categories example_model))"
    "row (createIndex 0 0 None) < int (length (categories example_model))"
    by (simp_all add: createIndex_def example_model_def)
  have root: "int (length (categories example_model)) \<le> 3"
    by (simp add: example_model_def)
  from index_out_of_range_invalid [of "- 1" example_model 7 "createIndex 3 0 None"]
    index_out_of_range_invalid [of 0 example_model 0 "createIndex 1 0 None"]
    index_out_of_range_invalid [of 0 example_model 3 "createIndex 0 0 None"]
    index_out_of_range_invalid [of 3 example_model 0 QModelIndex]
    n known root
  show ?thesis by (auto simp: columnCount_def)
qed

section \<open>Setting the pattern\<close>

lemma cat_set_pattern_ok:
  "exec db (querystr c) (replicate (length (cat_fields c)) pat) = Some q \<Longrightarrow>
   cat_set_pattern c pat db =
     (Inr (c\<lparr>query := q\<rparr>),
      db\<lparr>executed := executed db @ [(querystr c, replicate (length (cat_fields c)) pat)]\<rparr>)"
  by (simp add: cat_set_pattern_def run_query_def map_replicate_const)

lemma set_pattern_loop_ok:
  "\<forall>c\<in>set cs. exec db (querystr c) (replicate (length (cat_fields c)) pat) \<noteq> None \<Longrightarrow>
   set_pattern_loop pat cs db =
     (None,
      map (\<lambda>c. c\<lparr>query := the (exec db (querystr c)
                                  (replicate (length (cat_fields c)) pat))\<rparr>) cs,
      db\<lparr>executed := executed db
             @ map (\<lambda>c. (querystr c, replicate (length (cat_fields c)) pat)) cs\<rparr>)"
proof (induction cs arbitrary: db)
  case Nil
  then show ?case by simp
next
  case (Cons c cs)
  let ?call = "\<lambda>c. (querystr c, replicate (length (cat_fields c)) pat)"
  let ?db1 = "db\<lparr>executed := executed db @ [?call c]\<rparr>"
  from Cons.prems obtain q
    where q: "exec db (querystr c) (replicate (length (cat_fields c)) pat) = Some q"
    by auto
  have "\<forall>c\<in>set cs. exec ?db1 (querystr c) (replicate (length (cat_fields c)) pat) \<noteq> None"
    using Cons.prems by simp
  from Cons.IH [OF this] cat_set_pattern_ok [OF q] q show ?case by simp
qed

lemma set_pattern_stores_raw: "pattern (fst (snd (set_pattern m raw db))) = raw"
  by (simp add: set_pattern_def Let_def split: prod.splits)

text \<open>
  Claim C5. \<open>set_pattern\<close> stores the raw string unchanged in the attribute \<open>pattern\<close>.
  When no statement fails, it runs the statement of every category, in the order of the
  category list, each time with the compiled pattern bound once for each filtered field of
  that category, and gives every category the result of its statement.
\<close>

theorem set_pattern_stores_and_broadcasts:
  "pattern (fst (snd (set_pattern m raw db))) = raw
   \<and> ((\<forall>c\<in>set (categories m).
          exec db (querystr c) (replicate (length (cat_fields c)) (compile_pattern raw))
            \<noteq> None) \<longrightarrow>
      set_pattern m raw db =
        (None,
         m\<lparr>pattern := raw,
           categories :=
             map (\<lambda>c. c\<lparr>query := the (exec db (querystr c)
                           (replicate (length (cat_fields c)) (compile_pattern raw)))\<rparr>)
               (categories m)\<rparr>,
         db\<lparr>executed := executed db
                @ map (\<lambda>c. (querystr c,
                             replicate (length (cat_fields c)) (compile_pattern raw)))
                    (categories m)\<rparr>))"
  by (simp add: set_pattern_stores_raw) (simp add: set_pattern_def set_pattern_loop_ok)

theorem set_pattern_stores_and_broadcasts_witness:
  "pattern (fst (snd (set_pattern example_model ''a b'' example_db))) = ''a b''
   \<and> map snd (executed (snd (snd (set_pattern example_model ''a b'' example_db))))
       = [[''%a%b%''], [''%a%b%''], [''%a%b%'']]
   \<and> map fst (executed (snd (snd (set_pattern example_model ''a b'' example_db))))
       = map querystr (categories example_model)"
proof -
  have ok: "\<forall>c\<in>set (categories example_model).
          exec example_db (querystr c)
            (replicate (length (cat_fields c)) (compile_pattern ''a b'')) \<noteq> None"
    by (simp add: example_db_def)
  have pat: "compile_pattern ''a b'' = ''%a%b%''"
    by (simp add: compile_pattern_def)
  from set_pattern_stores_and_broadcasts [of example_model "''a b''" example_db] ok
  show ?thesis
    by (simp add: pat example_db_def example_model_def example_category_def)
qed

section \<open>First and last item\<close>

lemma index_root:
  "0 \<le> r \<Longrightarrow> r < int (length (categories m)) \<Longrightarrow>
   index m r 0 QModelIndex = Inr (createIndex r 0 None)"
  by (simp add: index_def rowCount_def not_isValid_QModelIndex columnCount_def)

lemma index_category_child:
  assumes "k < length (categories m)" "0 \<le> r" "r < cat_rowCount (categories m ! k)"
  shows "index m r 0 (createIndex (int k) 0 None)
           = Inr (createIndex r 0 (Some (oid (categories m ! k))))"
proof -
  let ?p = "createIndex (int k) 0 None"
  have p: "isValid ?p" "internalPointer ?p = None" "row ?p = int k" "column ?p = 0"
    by (simp_all add: isValid_def createIndex_def)
  with assms have "rowCount m ?p = Inr (cat_rowCount (categories m ! k))"
    by (simp add: rowCount_category)
  with assms p show ?thesis
    by (simp add: index_def columnCount_def py_getitem_in_range)
qed

lemma first_item_loop_skip:
  "\<forall>e\<in>set es. cat_rowCount (snd e) = 0 \<Longrightarrow>
   first_item_loop m (es @ rest) = first_item_loop m rest"
proof (induction es)
  case Nil
  then show ?case by simp
next
  case (Cons e es)
  then show ?case by (cases e) simp
qed

lemma last_item_loop_skip:
  "\<forall>e\<in>set es. cat_rowCount (snd e) = 0 \<Longrightarrow>
   last_item_loop m (es @ rest) = last_item_loop m rest"
proof (induction es)
  case Nil
  then show ?case by simp
next
  case (Cons e es)
  then show ?case by (cases e) simp
qed

lemma length_py_enumerate: "length (py_enumerate xs) = length xs"
  by (simp add: py_enumerate_def)

lemma nth_py_enumerate: "k < length xs \<Longrightarrow> py_enumerate xs ! k = (int k, xs ! k)"
  by (simp add: py_enumerate_def)

lemma py_enumerate_split:
  "k < length xs \<Longrightarrow>
   py_enumerate xs
     = take k (py_enumerate xs) @ (int k, xs ! k) # drop (Suc k) (py_enumerate xs)"
  using id_take_nth_drop [of k "py_enumerate xs"]
  by (simp add: length_py_enumerate nth_py_enumerate)

lemma take_py_enumerate_zero:
  assumes "k < length xs" "\<forall>j<k. cat_rowCount (xs ! j) = 0"
  shows "\<forall>e\<in>set (take k (py_enumerate xs)). cat_rowCount (snd e) = 0"
proof
  fix e assume "e \<in> set (take k (py_enumerate xs))"
  then obtain j where j: "j < k" "j < length xs" "e = py_enumerate xs ! j"
    by (auto simp: in_set_conv_nth length_py_enumerate)
  with assms show "cat_rowCount (snd e) = 0" by (simp add: nth_py_enumerate)
qed

lemma drop_py_enumerate_zero:
  assumes "\<forall>j<length xs. k < j \<longrightarrow> cat_rowCount (xs ! j) = 0"
  shows "\<forall>e\<in>set (drop (Suc k) (py_enumerate xs)). cat_rowCount (snd e) = 0"
proof
  fix e assume "e \<in> set (drop (Suc k) (py_enumerate xs))"
  then obtain i where i: "i < length xs - Suc k" "e = py_enumerate xs ! (Suc k + i)"
    by (auto simp: in_set_conv_nth length_py_enumerate)
  with assms show "cat_rowCount (snd e) = 0" by (simp add: nth_py_enumerate)
qed

lemma all_py_enumerate_zero:
  assumes "\<forall>c\<in>set xs. cat_rowCount c = 0"
  shows "\<forall>e\<in>set (py_enumerate xs). cat_rowCount (snd e) = 0"
  using assms by (auto simp: py_enumerate_def dest: set_zip_rightD)

lemma first_item_found:
  assumes k: "k < length (categories m)" and nz: "cat_rowCount (categories m ! k) \<noteq> 0"
    and z: "\<forall>j<k. cat_rowCount (categories m ! j) = 0"
  shows "first_item m = Inr (createIndex 0 0 (Some (oid (categories m ! k))))"
proof -
  let ?E = "py_enumerate (categories m)"
  from nz have pos: "0 < cat_rowCount (categories m ! k)" by (simp add: cat_rowCount_def)
  have "first_item m
          = first_item_loop m ((int k, categories m ! k) # drop (Suc k) ?E)"
    unfolding first_item_def
    using py_enumerate_split [OF k] first_item_loop_skip [OF take_py_enumerate_zero [OF k z]]
    by metis
  also have "\<dots> = Inr (createIndex 0 0 (Some (oid (categories m ! k))))"
    using pos k index_root [of "int k" m] index_category_child [OF k _ pos]
    by (simp add: ensure_valid_def isValid_createIndex)
  finally show ?thesis .
qed

lemma last_item_found:
  assumes k: "k < length (categories m)" and nz: "cat_rowCount (categories m ! k) \<noteq> 0"
    and z: "\<forall>j<length (categories m). k < j \<longrightarrow> cat_rowCount (categories m ! j) = 0"
  shows "last_item m
           = Inr (createIndex (cat_rowCount (categories m ! k) - 1) 0
                    (Some (oid (categories m ! k))))"
proof -
  let ?E = "py_enumerate (categories m)"
  let ?n = "cat_rowCount (categories m ! k)"
  from nz have pos: "0 < ?n" by (simp add: cat_rowCount_def)
  have "rev ?E = rev (drop (Suc k) ?E) @ (int k, categories m ! k) # rev (take k ?E)"
    using py_enumerate_split [OF k]
    by (metis append_Cons append_Nil append_assoc rev.simps(2) rev_append)
  moreover have "\<forall>e\<in>set (rev (drop (Suc k) ?E)). cat_rowCount (snd e) = 0"
    using drop_py_enumerate_zero [OF z] by simp
  ultimately have "last_item m
          = last_item_loop m ((int k, categories m ! k) # rev (take k ?E))"
    unfolding last_item_def using last_item_loop_skip by metis
  also have "\<dots> = Inr (createIndex (?n - 1) 0 (Some (oid (categories m ! k))))"
    using pos k index_root [of "int k" m] index_category_child [OF k, of "?n - 1"]
    by (simp add: ensure_valid_def isValid_createIndex Let_def)
  finally show ?thesis .
qed

lemma items_none:
  assumes "\<forall>c\<in>set (categories m). cat_rowCount c = 0"
  shows "first_item m = Inr QModelIndex" and "last_item m = Inr QModelIndex"
proof -
  let ?E = "py_enumerate (categories m)"
  from all_py_enumerate_zero [OF assms]
  have z: "\<forall>e\<in>set ?E. cat_rowCount (snd e) = 0" .
  from first_item_loop_skip [OF z, of m "[]"] show "first_item m = Inr QModelIndex"
    by (simp add: first_item_def)
  from z have "\<forall>e\<in>set (rev ?E). cat_rowCount (snd e) = 0" by simp
  from last_item_loop_skip [OF this, of m "[]"] show "last_item m = Inr QModelIndex"
    by (simp add: last_item_def)
qed

text \<open>
  Claim C8. \<open>first_item\<close> goes through the categories from the first to the last and
  \<open>last_item\<close> from the last to the first, up to the first category met whose row count is
  not zero. \<open>first_item\<close> returns the address of row 0, column 0 under that category, and
  \<open>last_item\<close> the address of its last row, column 0. Both return an invalid address when
  every category has no rows, which includes a model without categories.
\<close>

theorem first_last_item_scan:
  "((\<forall>c\<in>set (categories m). cat_rowCount c = 0) \<longrightarrow>
      first_item m = Inr QModelIndex \<and> last_item m = Inr QModelIndex
      \<and> \<not> isValid QModelIndex)
   \<and> (k < length (categories m) \<and> cat_rowCount (categories m ! k) \<noteq> 0
        \<and> (\<forall>j<k. cat_rowCount (categories m ! j) = 0) \<longrightarrow>
      first_item m = Inr (createIndex 0 0 (Some (oid (categories m ! k))))
      \<and> first_item m = index m 0 0 (createIndex (int k) 0 None))
   \<and> (l < length (categories m) \<and> cat_rowCount (categories m ! l) \<noteq> 0
        \<and> (\<forall>j<length (categories m). l < j \<longrightarrow> cat_rowCount (categories m ! j) = 0) \<longrightarrow>
      last_item m = Inr (createIndex (cat_rowCount (categories m ! l) - 1) 0
                           (Some (oid (categories m ! l))))
      \<and> last_item m = index m (cat_rowCount (categories m ! l) - 1) 0
                         (createIndex (int l) 0 None))"
proof (intro conjI impI)
  assume "\<forall>c\<in>set (categories m). cat_rowCount c = 0"
  then show "first_item m = Inr QModelIndex" and "last_item m = Inr QModelIndex"
    by (rule items_none)+
next
  show "\<not> isValid QModelIndex" by (rule not_isValid_QModelIndex)
next
  assume h: "k < length (categories m) \<and> cat_rowCount (categories m ! k) \<noteq> 0
        \<and> (\<forall>j<k. cat_rowCount (categories m ! j) = 0)"
  then show f: "first_item m = Inr (createIndex 0 0 (Some (oid (categories m ! k))))"
    by (simp add: first_item_found)
  from h have "0 < cat_rowCount (categories m ! k)" by (simp add: cat_rowCount_def)
  with h f show "first_item m = index m 0 0 (createIndex (int k) 0 None)"
    by (simp add: index_category_child)
next
  assume h: "l < length (categories m) \<and> cat_rowCount (categories m ! l) \<noteq> 0
        \<and> (\<forall>j<length (categories m). l < j \<longrightarrow> cat_rowCount (categories m ! j) = 0)"
  then show f: "last_item m = Inr (createIndex (cat_rowCount (categories m ! l) - 1) 0
                           (Some (oid (categories m ! l))))"
    by (simp add: last_item_found)
  from h have "0 < cat_rowCount (categories m ! l)" by (simp add: cat_rowCount_def)
  with h f show "last_item m = index m (cat_rowCount (categories m ! l) - 1) 0
                         (createIndex (int l) 0 None)"
    by (simp add: index_category_child)
qed


theorem first_last_item_scan_witness:
  "first_item (init None None) = Inr QModelIndex
   \<and> last_item (init None None) = Inr QModelIndex
   \<and> first_item example_sparse_model = Inr (createIndex 0 0 (Some 5))
   \<and> last_item example_sparse_model = Inr (createIndex 1 0 (Some 5))"
proof -
  let ?m = example_sparse_model
  have cats: "length (categories ?m) = 3"
    "cat_rowCount (categories ?m ! 0) = 0" "cat_rowCount (categories ?m ! 1) = 2"
    "cat_rowCount (categories ?m ! 2) = 0" "oid (categories ?m ! 1) = 5"
    by (simp_all add: example_sparse_model_def example_model_def example_category_def
        example_query_def cat_rowCount_def)
  have none: "\<forall>c\<in>set (categories (init None None)). cat_rowCount c = 0"
    by (simp add: init_def)
  have before: "\<forall>j<1. cat_rowCount (categories ?m ! j) = 0"
    using cats by simp
  have after: "\<forall>j<length (categories ?m). 1 < j \<longrightarrow> cat_rowCount (categories ?m ! j) = 0"
  proof (intro allI impI)
    fix j assume "j < length (categories ?m)" "1 < j"
    with cats have "j = 2" by simp
    with cats show "cat_rowCount (categories ?m ! j) = 0" by simp
  qed
  from first_last_item_scan [of "init None None" 0 0] none
    first_last_item_scan [of ?m 1 1] before after cats
  show ?thesis by simp
qed

section \<open>Construction\<close>

lemma new_category_columns:
  "new_category m name select whr sort_by sort_order limit db = (r, m', db') \<Longrightarrow>
   columns_to_filter m' = columns_to_filter m"
  by (auto simp: new_category_def split: prod.splits sum.splits)

lemma set_pattern_columns:
  "set_pattern m raw db = (r, m', db') \<Longrightarrow> columns_to_filter m' = columns_to_filter m"
  by (auto simp: set_pattern_def Let_def split: prod.splits)

lemma build_querystr_one_field:
  assumes "build_querystr name [f] select whr sort_by sort_order limit = Inr qs"
  shows "qs = ''select '' @ select @ '' from '' @ name @ '' where (''
              @ f @ '' like ? escape '' @ [quote, backslash, quote] @ '')''
              @ (if truthy_str whr then '' and '' @ the whr else [])
              @ (if truthy_str sort_by
                 then '' order by '' @ the sort_by @ '' ''
                      @ (if sort_order = Some AscendingOrder then ''asc'' else ''desc'')
                 else [])
              @ (if truthy_int limit then '' limit '' @ str_int (the limit) else [])"
  using assms by (auto simp: build_querystr_def Let_def split: if_splits)

lemma cat_init_result:
  assumes "cat_init new name sort_by sort_order limit select whr columns db = (Inr c, db')"
  shows "\<exists>probe qs.
           exec db (''select * from '' @ name @ '' limit 1'') [] = Some probe
           \<and> build_querystr name (map (fieldName probe) columns) select whr sort_by
                sort_order limit = Inr qs
           \<and> cat_fields c = map (fieldName probe) columns
           \<and> querystr c = qs
           \<and> exec db qs (replicate (length columns) ''%'') = Some (query c)
           \<and> db' = db\<lparr>executed := executed db
                         @ [(''select * from '' @ name @ '' limit 1'', []),
                            (qs, replicate (length columns) ''%'')]\<rparr>"
  using assms
  by (auto simp: cat_init_def Let_def run_query_def cat_set_pattern_def map_replicate_const
      split: prod.splits sum.splits option.splits)

lemma new_category_result:
  assumes "new_category m name select whr sort_by sort_order limit db = (None, m', db')"
  shows "\<exists>cat probe qs.
           categories m' = categories m @ [cat]
           \<and> exec db (''select * from '' @ name @ '' limit 1'') [] = Some probe
           \<and> build_querystr name (map (fieldName probe) (columns_to_filter m)) select whr
                sort_by sort_order limit = Inr qs
           \<and> cat_fields cat = map (fieldName probe) (columns_to_filter m)
           \<and> querystr cat = qs
           \<and> exec db qs (replicate (length (columns_to_filter m)) ''%'') = Some (query cat)
           \<and> db' = db\<lparr>executed := executed db
                         @ [(''select * from '' @ name @ '' limit 1'', []),
                            (qs, replicate (length (columns_to_filter m)) ''%'')]\<rparr>"
proof -
  from assms obtain cat
    where c: "cat_init (fresh_oid (categories m)) name sort_by sort_order limit select whr
                (columns_to_filter m) db = (Inr cat, db')"
      and m': "m' = m\<lparr>categories := categories m @ [cat]\<rparr>"
    by (auto simp: new_category_def split: prod.splits sum.splits)
  from cat_init_result [OF c] m' show ?thesis by auto
qed

lemma cat_set_pattern_one_field:
  "cat_fields c = [f] \<Longrightarrow>
   snd (cat_set_pattern c pat db) = db\<lparr>executed := executed db @ [(querystr c, [pat])]\<rparr>"
  by (simp add: cat_set_pattern_def run_query_def split: option.splits)

text \<open>
  Claim C10. A model made with \<open>columns_to_filter\<close> left out, None or the empty list has
  the attribute \<open>columns_to_filter\<close> set to \<open>[0]\<close>; a list that is not empty is stored as it
  is. \<open>new_category\<close> and \<open>set_pattern\<close> leave the attribute alone, so the value holds for
  every category created later. A category that \<open>new_category\<close> adds to a model whose
  attribute is \<open>[0]\<close> filters on its first column only: its one filtered field is the first
  field of the table, the condition of its statement is the single \<open>like\<close> test on that
  field (followed by the optional static condition, order and limit), the statement is
  first run with the one bound value \<open>%\<close>, and every later \<open>set_pattern\<close> of the category
  binds the pattern exactly once.
\<close>

theorem init_columns_to_filter_default:
  "columns_to_filter (init widths None) = [0]
   \<and> columns_to_filter (init widths (Some [])) = [0]
   \<and> (xs \<noteq> [] \<longrightarrow> columns_to_filter (init widths (Some xs)) = xs)
   \<and> (new_category m name select whr sort_by sort_order limit db = (r, m', db') \<longrightarrow>
        columns_to_filter m' = columns_to_filter m)
   \<and> (set_pattern m raw db = (r, m', db') \<longrightarrow> columns_to_filter m' = columns_to_filter m)
   \<and> (columns_to_filter m = [0]
        \<and> new_category m name select whr sort_by sort_order limit db = (None, m', db') \<longrightarrow>
        (\<exists>cat probe. categories m' = categories m @ [cat]
           \<and> exec db (''select * from '' @ name @ '' limit 1'') [] = Some probe
           \<and> cat_fields cat = [fieldName probe 0]
           \<and> querystr cat =
               ''select '' @ select @ '' from '' @ name @ '' where (''
               @ fieldName probe 0 @ '' like ? escape '' @ [quote, backslash, quote] @ '')''
               @ (if truthy_str whr then '' and '' @ the whr else [])
               @ (if truthy_str sort_by
                  then '' order by '' @ the sort_by @ '' ''
                       @ (if sort_order = Some AscendingOrder then ''asc'' else ''desc'')
                  else [])
               @ (if truthy_int limit then '' limit '' @ str_int (the limit) else [])
           \<and> exec db (querystr cat) [''%''] = Some (query cat)
           \<and> db' = db\<lparr>executed := executed db
                         @ [(''select * from '' @ name @ '' limit 1'', []),
                            (querystr cat, [''%''])]\<rparr>
           \<and> (\<forall>pat db2. snd (cat_set_pattern cat pat db2)
                  = db2\<lparr>executed := executed db2 @ [(querystr cat, [pat])]\<rparr>)))"
proof (intro conjI impI)
  assume h: "columns_to_filter m = [0]
        \<and> new_category m name select whr sort_by sort_order limit db = (None, m', db')"
  then have "new_category m name select whr sort_by sort_order limit db = (None, m', db')"
    by simp
  from new_category_result [OF this] h obtain cat probe qs where
    cats: "categories m' = categories m @ [cat]"
    and probe: "exec db (''select * from '' @ name @ '' limit 1'') [] = Some probe"
    and qs: "build_querystr name [fieldName probe 0] select whr sort_by sort_order limit
               = Inr qs"
    and flds: "cat_fields cat = [fieldName probe 0]"
    and q: "querystr cat = qs"
    and run: "exec db qs [''%''] = Some (query cat)"
    and db': "db' = db\<lparr>executed := executed db
                         @ [(''select * from '' @ name @ '' limit 1'', []),
                            (qs, [''%''])]\<rparr>"
    by auto
  note stmt = build_querystr_one_field [OF qs]
  have later: "\<forall>pat db2. snd (cat_set_pattern cat pat db2)
                  = db2\<lparr>executed := executed db2 @ [(querystr cat, [pat])]\<rparr>"
    using cat_set_pattern_one_field [OF flds] by simp
  show "\<exists>cat probe. categories m' = categories m @ [cat]
           \<and> exec db (''select * from '' @ name @ '' limit 1'') [] = Some probe
           \<and> cat_fields cat = [fieldName probe 0]
           \<and> querystr cat =
               ''select '' @ select @ '' from '' @ name @ '' where (''
               @ fieldName probe 0 @ '' like ? escape '' @ [quote, backslash, quote] @ '')''
               @ (if truthy_str whr then '' and '' @ the whr else [])
               @ (if truthy_str sort_by
                  then '' order by '' @ the sort_by @ '' ''
                       @ (if sort_order = Some AscendingOrder then ''asc'' else ''desc'')
                  else [])
               @ (if truthy_int limit then '' limit '' @ str_int (the limit) else [])
           \<and> exec db (querystr cat) [''%''] = Some (query cat)
           \<and> db' = db\<lparr>executed := executed db
                         @ [(''select * from '' @ name @ '' limit 1'', []),
                            (querystr cat, [''%''])]\<rparr>
           \<and> (\<forall>pat db2. snd (cat_set_pattern cat pat db2)
                  = db2\<lparr>executed := executed db2 @ [(querystr cat, [pat])]\<rparr>)"
    apply (rule exI [of _ cat])
    apply (rule exI [of _ probe])
    using cats probe flds q run db' later stmt
    apply (simp only: simp_thms)
    done
qed (simp_all add: init_def new_category_columns set_pattern_columns)

theorem init_columns_to_filter_default_witness:
  "columns_to_filter (init None None) = [0]
   \<and> columns_to_filter (init None (Some [])) = [0]
   \<and> columns_to_filter (init None (Some [1, 2])) = [1, 2]
   \<and> map cat_fields (categories (fst (snd
        (new_category (init None None) ''history'' ''*'' None None None None example_db))))
       = [[''url'']]
   \<and> map querystr (categories (fst (snd
        (new_category (init None None) ''history'' ''*'' None None None None example_db))))
       = [''select * from history where (url like ? escape ''
          @ [quote, backslash, quote] @ '')'']
   \<and> map snd (executed (snd (snd
        (new_category (init None None) ''history'' ''*'' None None None None example_db))))
       = [[], [''%'']]"
proof -
  let ?res = "new_category (init None None) ''history'' ''*'' None None None None example_db"
  have ok: "fst ?res = None"
    by (simp add: new_category_def cat_init_def run_query_def example_db_def Let_def
        build_querystr_def truthy_str_def truthy_int_def cat_set_pattern_def)
  then have res: "?res = (None, fst (snd ?res), snd (snd ?res))"
    by (metis prod.collapse)
  have c0: "columns_to_filter (init None None) = [0]"
    by (simp add: init_def)
  have ne: "[1, 2::int] \<noteq> []" by simp
  from init_columns_to_filter_default
         [of None "[1, 2]" "init None None" "''history''" "''*''" None None None None
             example_db None "fst (snd ?res)" "snd (snd ?res)"]
    c0 res ne
  obtain cat probe where
    cats: "categories (fst (snd ?res)) = categories (init None None) @ [cat]"
    and probe: "exec example_db (''select * from '' @ ''history'' @ '' limit 1'') []
                  = Some probe"
    and flds: "cat_fields cat = [fieldName probe 0]"
    and q: "querystr cat =
               ''select '' @ ''*'' @ '' from '' @ ''history'' @ '' where (''
               @ fieldName probe 0 @ '' like ? escape '' @ [quote, backslash, quote] @ '')''
               @ (if truthy_str None then '' and '' @ the None else [])
               @ (if truthy_str None
                  then '' order by '' @ the None @ '' ''
                       @ (if None = Some AscendingOrder then ''asc'' else ''desc'')
                  else [])
               @ (if truthy_int None then '' limit '' @ str_int (the None) else [])"
    and db': "snd (snd ?res) = example_db\<lparr>executed := executed example_db
                         @ [(''select * from '' @ ''history'' @ '' limit 1'', []),
                            (querystr cat, [''%''])]\<rparr>"
    by blast
  from probe have p: "fieldName probe 0 = ''url''"
    by (auto simp: example_db_def fieldName_def example_query_def)
  from cats flds p have f: "map cat_fields (categories (fst (snd ?res))) = [[''url'']]"
    by (simp add: init_def)
  from cats q p have s: "map querystr (categories (fst (snd ?res)))
       = [''select * from history where (url like ? escape ''
          @ [quote, backslash, quote] @ '')'']"
    by (simp add: init_def truthy_str_def truthy_int_def)
  from db' have e: "map snd (executed (snd (snd ?res))) = [[], [''%'']]"
    by (simp add: example_db_def)
  from init_columns_to_filter_default [of None "[1, 2]"] c0 ne f s e show ?thesis
    by (simp add: init_def)
qed

end
